theory Spec2Isabelle
  imports Complex_Main "HOL-Library.Word" "HOL-Library.Sublist" "HOL-Library.Multiset"
begin

section \<open>JavaScript strings\<close>

text \<open>
  A JavaScript string is a sequence of 16-bit code units.  An ASCII literal of the source
  is written \<open>js ''...''\<close>.
\<close>

type_synonym jschar = "16 word"
type_synonym jsstring = "jschar list"

definition js :: "string \<Rightarrow> jsstring" where
  "js s = map of_char s"

text \<open>
  ECMAScript \<open>LineTerminator\<close>: LF, CR, LS, PS.  The regular expression atom \<open>.\<close>
  (without the \<open>s\<close> flag) matches every code unit that is not one of them, and \<open>^\<close>
  with the \<open>m\<close> flag matches at the start of the input and after one of them.
\<close>

definition is_line_terminator :: "jschar \<Rightarrow> bool" where
  "is_line_terminator c \<longleftrightarrow> c = 0x0A \<or> c = 0x0D \<or> c = 0x2028 \<or> c = 0x2029"

text \<open>
  ECMAScript \<open>WhiteSpace\<close>: TAB, VT, FF, ZWNBSP and the space separators (category Zs).
\<close>

definition is_white_space :: "jschar \<Rightarrow> bool" where
  "is_white_space c \<longleftrightarrow>
     c = 0x09 \<or> c = 0x0B \<or> c = 0x0C \<or> c = 0xFEFF \<or> c = 0x20 \<or> c = 0xA0 \<or> c = 0x1680 \<or>
     (0x2000 \<le> c \<and> c \<le> 0x200A) \<or> c = 0x202F \<or> c = 0x205F \<or> c = 0x3000"

text \<open>
  What \<open>String.prototype.trim\<close> strips and what the class escape \<open>\s\<close> matches:
  \<open>WhiteSpace\<close> and \<open>LineTerminator\<close>.
\<close>

definition is_space :: "jschar \<Rightarrow> bool" where
  "is_space c \<longleftrightarrow> is_white_space c \<or> is_line_terminator c"

definition trim :: "jsstring \<Rightarrow> jsstring" where
  "trim s = rev (dropWhile is_space (rev (dropWhile is_space s)))"

text \<open>\<open>s.includes(sub)\<close>: \<open>sub\<close> occurs in \<open>s\<close> at some index.\<close>

fun str_includes :: "jsstring \<Rightarrow> jsstring \<Rightarrow> bool" where
  "str_includes [] sub = (sub = [])"
| "str_includes (c # cs) sub = (prefix sub (c # cs) \<or> str_includes cs sub)"

text \<open>
  \<open>s.split(sep)\<close> for a non-empty string separator: the pieces between the occurrences of
  \<open>sep\<close>, found left to right without overlap.  (Both calls of the source pass a
  non-empty literal; the empty separator, which JavaScript treats differently, is not
  modelled and is kept from matching.)
\<close>

function str_split :: "jsstring \<Rightarrow> jsstring \<Rightarrow> jsstring list" where
  "str_split sep s =
     (if s = [] then [[]]
      else if sep \<noteq> [] \<and> prefix sep s then [] # str_split sep (drop (length sep) s)
      else (case str_split sep (tl s) of
              [] \<Rightarrow> [[hd s]]
            | p # ps \<Rightarrow> (hd s # p) # ps))"
  by pat_completeness auto
termination
  by (relation "measure (\<lambda>(sep, s). length s)") (auto simp: neq_Nil_conv)

declare str_split.simps [simp del]

text \<open>\<open>parts.join(sep)\<close>.\<close>

fun str_join :: "jsstring \<Rightarrow> jsstring list \<Rightarrow> jsstring" where
  "str_join sep [] = []"
| "str_join sep [p] = p"
| "str_join sep (p # q # ps) = p @ sep @ str_join sep (q # ps)"

text \<open>
  \<open>s.substring(a, b)\<close>: both indices are clamped to the length and swapped when
  \<open>a > b\<close>.
\<close>

definition substring :: "jsstring \<Rightarrow> nat \<Rightarrow> nat \<Rightarrow> jsstring" where
  "substring s a b =
     (let a' = min a (length s); b' = min b (length s);
          lo = min a' b'; hi = max a' b'
      in take (hi - lo) (drop lo s))"

section \<open>File edits\<close>

record file_edit =
  filename :: jsstring
  content :: jsstring

section \<open>\<open>parseAIResponse\<close> of \<open>src/scripts/build-pipeline.js\<close> (lines 99-119)\<close>

text \<open>
  One iteration of \<open>for (const part of parts)\<close>: the edit pushed for \<open>part\<close>, if any.
  Each \<open>continue\<close> of the source is a branch returning \<open>None\<close>; the empty string is the
  only falsy string.
\<close>

definition parse_part :: "jsstring \<Rightarrow> file_edit option" where
  "parse_part part =
     (let trimmed = trim part in
      if trimmed = [] then None
      else
        let lines = str_split (js ''\<newline>'') trimmed in
        if length lines < 2 then None
        else
          let firstLine = trim (hd lines) in
          if \<not> str_includes firstLine (js ''.'') then None
          else
            let filename = firstLine;
                content = trim (str_join (js ''\<newline>'') (tl lines))
            in if filename \<noteq> [] \<and> content \<noteq> []
               then Some \<lparr>filename = filename, content = content\<rparr>
               else None)"

definition parseAIResponse_split :: "jsstring \<Rightarrow> file_edit list" where
  "parseAIResponse_split text = List.map_filter parse_part (str_split (js ''==='') text)"

section \<open>\<open>parseAIResponse\<close> of \<open>src/unnamed/part_000\<close> (lines 20-45)\<close>

subsection \<open>The regular expression \<open>/^===\s*(.+?)\s*===/gm\<close>\<close>

text \<open>
  The pattern is matched by backtracking, as ECMAScript prescribes: a greedy \<open>*\<close> first
  tries one more repetition and falls back to the rest of the pattern; a lazy \<open>+?\<close>
  takes one repetition, then first tries the rest of the pattern and takes one more
  repetition only when that fails.  Each function below matches a suffix of the pattern
  at the start of the remaining input \<open>r\<close> and returns how many code units each piece
  consumed in the first successful alternative.
\<close>

text \<open>The closing \<open>\s*===\<close>: the number of code units it consumes.\<close>

fun rx_closing :: "jsstring \<Rightarrow> nat option" where
  "rx_closing [] = None"
| "rx_closing (c # cs) =
     (case (if is_space c then rx_closing cs else None) of
        Some n \<Rightarrow> Some (Suc n)
      | None \<Rightarrow> if prefix (js ''==='') (c # cs) then Some 3 else None)"

text \<open>
  \<open>(.+?)\<close> after its first repetition, followed by the closing: the further length of
  the capture and the length of the closing.
\<close>

fun rx_capture_more :: "jsstring \<Rightarrow> (nat \<times> nat) option" where
  "rx_capture_more [] = None"
| "rx_capture_more (c # cs) =
     (case rx_closing (c # cs) of
        Some t \<Rightarrow> Some (0, t)
      | None \<Rightarrow>
          if is_line_terminator c then None
          else map_option (\<lambda>(m, t). (Suc m, t)) (rx_capture_more cs))"

text \<open>\<open>(.+?)\s*===\<close>: the length of the capture and of the closing.\<close>

fun rx_capture :: "jsstring \<Rightarrow> (nat \<times> nat) option" where
  "rx_capture [] = None"
| "rx_capture (c # cs) =
     (if is_line_terminator c then None
      else map_option (\<lambda>(m, t). (Suc m, t)) (rx_capture_more cs))"

text \<open>
  \<open>\s*(.+?)\s*===\<close>: the length of the leading white space, of the capture and of the
  closing.
\<close>

fun rx_opening :: "jsstring \<Rightarrow> (nat \<times> nat \<times> nat) option" where
  "rx_opening [] = None"
| "rx_opening (c # cs) =
     (case (if is_space c then rx_opening cs else None) of
        Some (k, m, t) \<Rightarrow> Some (Suc k, m, t)
      | None \<Rightarrow> map_option (\<lambda>(m, t). (0, m, t)) (rx_capture (c # cs)))"

text \<open>
  A match object: \<open>match.index\<close>, \<open>match[1]\<close>, and the index just after the match (what
  \<open>exec\<close> stores in \<open>lastIndex\<close>).
\<close>

record rx_match =
  index :: nat
  group1 :: jsstring
  end_index :: nat

text \<open>The whole pattern tried at position \<open>p\<close> of \<open>text\<close> (\<open>p \<le> length text\<close>).\<close>

definition match_at :: "jsstring \<Rightarrow> nat \<Rightarrow> rx_match option" where
  "match_at text p =
     (if (p = 0 \<or> is_line_terminator (text ! (p - 1))) \<and> prefix (js ''==='') (drop p text)
      then
        (case rx_opening (drop (p + 3) text) of
           None \<Rightarrow> None
         | Some (k, m, t) \<Rightarrow>
             Some \<lparr>index = p, group1 = take m (drop (p + 3 + k) text),
                   end_index = p + 3 + k + m + t\<rparr>)
      else None)"

text \<open>The first position from \<open>p\<close> up to the end of the text where the pattern matches.\<close>

function search :: "jsstring \<Rightarrow> nat \<Rightarrow> rx_match option" where
  "search text p =
     (if length text < p then None
      else (case match_at text p of
              Some m \<Rightarrow> Some m
            | None \<Rightarrow> search text (Suc p)))"
  by pat_completeness auto
termination
  by (relation "measure (\<lambda>(text, p). Suc (length text) - p)") auto

declare search.simps [simp del]

text \<open>
  \<open>regex.exec(text)\<close> of a global regular expression whose \<open>lastIndex\<close> is
  \<open>lastIndex\<close>: the match (or \<open>null\<close>) and the new \<open>lastIndex\<close>.  A failed \<open>exec\<close>
  resets \<open>lastIndex\<close> to 0.
\<close>

definition exec :: "jsstring \<Rightarrow> nat \<Rightarrow> rx_match option \<times> nat" where
  "exec text lastIndex =
     (case search text lastIndex of
        None \<Rightarrow> (None, 0)
      | Some m \<Rightarrow> (Some m, end_index m))"

subsection \<open>The loop\<close>

text \<open>
  One evaluation of the loop condition and, when it holds, of the loop body (lines 26-42),
  from the state \<open>(regex.lastIndex, changes)\<close>: \<open>Inr changes\<close> when the condition fails
  and the function returns \<open>changes\<close>, \<open>Inl\<close> of the next state otherwise.
\<close>

definition loop_body :: "jsstring \<Rightarrow> nat \<times> file_edit list \<Rightarrow> (nat \<times> file_edit list) + file_edit list" where
  "loop_body text st =
     (case exec text (fst st) of
        (None, _) \<Rightarrow> Inr (snd st)
      | (Some match, lastIndex1) \<Rightarrow>
          let filename = trim (group1 match);
              start = lastIndex1;
              (nextMatch, lastIndex2) = exec text lastIndex1;
              end = (case nextMatch of Some nm \<Rightarrow> index nm | None \<Rightarrow> length text);
              content = trim (substring text start end);
              changes = (if str_includes filename (js ''.'') \<and> length content > 0
                         then snd st @ [\<lparr>filename = filename, content = content\<rparr>]
                         else snd st);
              lastIndex3 = (case nextMatch of Some nm \<Rightarrow> index nm | None \<Rightarrow> lastIndex2)
          in Inl (lastIndex3, changes))"

text \<open>
  The \<open>while\<close> loop.  It need not terminate, so it is a partial function: \<open>None\<close> means
  that the loop runs forever (in a process with bounded memory, until \<open>changes\<close> has
  used it up).
\<close>

partial_function (option) parse_loop :: "jsstring \<Rightarrow> nat \<times> file_edit list \<Rightarrow> file_edit list option" where
  "parse_loop text st =
     (case loop_body text st of
        Inr changes \<Rightarrow> Some changes
      | Inl st' \<Rightarrow> parse_loop text st')"

declare parse_loop.simps [code]

definition parseAIResponse :: "jsstring \<Rightarrow> file_edit list option" where
  "parseAIResponse text = parse_loop text (0, [])"

text \<open>
  The state of the loop after \<open>n\<close> evaluations of its condition (the final state once
  the loop is left).
\<close>

fun loop_state :: "jsstring \<Rightarrow> nat \<Rightarrow> nat \<times> file_edit list" where
  "loop_state text 0 = (0, [])"
| "loop_state text (Suc n) =
     (case loop_body text (loop_state text n) of
        Inr changes \<Rightarrow> loop_state text n
      | Inl st' \<Rightarrow> st')"

section \<open>What both parsers check before they push an edit\<close>

text \<open>
  The file name includes a period and the content is trimmed and not empty; such a file
  name is not the end marker.
\<close>

abbreviation looks_like_file :: "file_edit \<Rightarrow> bool" where
  "looks_like_file e \<equiv>
     str_includes (filename e) (js ''.'') \<and> content e \<noteq> [] \<and> trim (content e) = content e \<and>
     filename e \<noteq> js ''END''"

section \<open>\<open>callGeminiWithRetry\<close> (\<open>src/unnamed/part_000\<close>, lines 6-18)\<close>

text \<open>
  What one call \<open>model.generateContent(prompt)\<close> does: it resolves with a result (kept
  here as the text of the response), or it rejects with an \<open>Error\<close> object \<open>e\<close>, of
  which the loop reads the string \<open>e.message\<close> only.  The service is outside the program,
  so the outcome of the \<open>i\<close>-th call is a parameter.
\<close>

datatype outcome = Resolved jsstring | Rejected jsstring

text \<open>
  How the function ends: it returns the result of a call, it falls out of the \<open>for\<close>
  loop and returns \<open>undefined\<close>, or it throws the error of a call.
\<close>

datatype completion = Returned jsstring | ReturnedUndefined | Threw jsstring

text \<open>
  \<open>delayMs\<close> is a JavaScript number, an IEEE 754 double.  A finite double is a rational
  number; \<open>delayMs *= 1.5\<close> rounds the exact product to the nearest double (53
  significant bits, ties to the even one) and gives \<open>Infinity\<close> when the rounded value
  reaches \<open>2 ^ 1024\<close>, that is, when its integer part has more than 1024 binary digits.
  The rounding is written for values from 1 on: \<open>delayMs\<close> starts at 60000 and only
  grows.
\<close>

text \<open>The number of binary digits of a positive integer.\<close>

function bit_length :: "int \<Rightarrow> nat" where
  "bit_length k = (if k \<le> 0 then 0 else Suc (bit_length (k div 2)))"
  by pat_completeness auto
termination
  by (relation "measure nat") auto

declare bit_length.simps [simp del]

text \<open>The distance between neighbouring doubles at \<open>x\<close>: 2 to the power \<open>floor (log2 x) - 52\<close>.\<close>

definition ulp :: "rat \<Rightarrow> rat" where
  "ulp x =
     (let p = bit_length \<lfloor>x\<rfloor> - 1
      in if 52 \<le> p then 2 ^ (p - 52) else 1 / 2 ^ (52 - p))"

definition round_half_even :: "rat \<Rightarrow> int" where
  "round_half_even x =
     (let f = \<lfloor>x\<rfloor>; r = x - of_int f
      in if r < 1 / 2 then f else if 1 / 2 < r then f + 1 else if even f then f else f + 1)"

definition to_double :: "rat \<Rightarrow> rat" where
  "to_double x = of_int (round_half_even (x / ulp x)) * ulp x"

datatype number = Num rat | PosInfinity

fun times_1_5 :: "number \<Rightarrow> number" where
  "times_1_5 PosInfinity = PosInfinity"
| "times_1_5 (Num x) =
     (let y = to_double (x * (3 / 2))
      in if 1024 < bit_length \<lfloor>y\<rfloor> then PosInfinity else Num y)"

record retry_run =
  attempts :: nat
  delays :: "number list"
  completion :: completion

text \<open>
  The \<open>for\<close> loop from the state \<open>(i, delayMs)\<close>; \<open>slept\<close> lists the arguments of the
  \<open>setTimeout\<close> calls made so far (what Node does with such an argument is not part of
  the program).  Iteration \<open>i\<close> makes the call number \<open>i\<close> (counted from 0).
  \<open>retries\<close> is an integer.
\<close>

function retry_loop :: "(nat \<Rightarrow> outcome) \<Rightarrow> int \<Rightarrow> nat \<Rightarrow> number \<Rightarrow> number list \<Rightarrow> retry_run" where
  "retry_loop model retries i delayMs slept =
     (if int i < retries then
        (case model i of
           Resolved r \<Rightarrow> \<lparr>attempts = Suc i, delays = slept, completion = Returned r\<rparr>
         | Rejected message \<Rightarrow>
             if \<not> str_includes message (js ''429'') \<or> int i = retries - 1
             then \<lparr>attempts = Suc i, delays = slept, completion = Threw message\<rparr>
             else retry_loop model retries (Suc i) (times_1_5 delayMs) (slept @ [delayMs]))
      else \<lparr>attempts = i, delays = slept, completion = ReturnedUndefined\<rparr>)"
  by pat_completeness auto
termination
  by (relation "measure (\<lambda>(model, retries, i, delayMs, slept). nat (retries - int i))") auto

declare retry_loop.simps [simp del]

definition callGeminiWithRetry :: "(nat \<Rightarrow> outcome) \<Rightarrow> int \<Rightarrow> retry_run" where
  "callGeminiWithRetry model retries = retry_loop model retries 0 (Num 60000) []"

text \<open>A service that answers every call with a rate-limit error.\<close>

definition always_rate_limited :: "nat \<Rightarrow> outcome" where
  "always_rate_limited i = Rejected (js ''[429 Too Many Requests]'')"

text \<open>A service that is rate limited once and then fails with another error.\<close>

definition limited_then_broken :: "nat \<Rightarrow> outcome" where
  "limited_then_broken i =
     (if i = 0 then Rejected (js ''[429 Too Many Requests]'') else Rejected (js ''[500 Internal]''))"

section \<open>The run: \<open>main\<close>\<close>

subsection \<open>The queue document\<close>

record task =
  task_id :: jsstring
  title :: jsstring
  desc :: jsstring
  phase :: jsstring

record backlog =
  pending :: "task list"
  completed :: "task list"
  phases :: "(jsstring \<times> jsstring) list"

subsection \<open>The world outside the process\<close>

text \<open>
  The file system as far as the run reads and writes it: the content of each file, and a
  log of the successful \<open>mkdirSync\<close> and \<open>writeFileSync\<close> calls.  \<open>sh_log\<close> lists the
  commands given to \<open>execSync\<close>.
\<close>

datatype fs_op = Mkdir jsstring | WriteFile jsstring jsstring

record world =
  files :: "jsstring \<Rightarrow> jsstring option"
  fs_log :: "fs_op list"
  sh_log :: "jsstring list"

text \<open>
  What the program does not decide itself: which file a path designates (\<open>resolve\<close>),
  Node's \<open>JSON.parse\<close> (with \<open>None\<close> for a text that is not a queue document),
  \<open>JSON.stringify(backlog, null, 2)\<close> and \<open>path.dirname\<close>, whether \<open>readdirSync\<close>,
  \<open>mkdirSync\<close> and \<open>writeFileSync\<close> succeed, the outcome of each call of the service,
  the exit status of each command (\<open>sh_ok\<close>: status 0) and the date.  A failed call
  throws and has no effect on the files; the commands are taken not to touch the files of
  the model.
\<close>

record env =
  resolve :: "jsstring \<Rightarrow> jsstring"
  decode :: "jsstring \<Rightarrow> backlog option"
  encode :: "backlog \<Rightarrow> jsstring"
  dirname :: "jsstring \<Rightarrow> jsstring"
  readdir_ok :: bool
  generate :: "nat \<Rightarrow> outcome"
  mkdir_ok :: "jsstring \<Rightarrow> bool"
  write_ok :: "jsstring \<Rightarrow> bool"
  sh_ok :: "jsstring \<Rightarrow> bool"
  today :: jsstring

text \<open>A statement either completes (\<open>Ok\<close>) or throws (\<open>Thrown\<close>), in the world it leaves.\<close>

datatype step = Ok world | Thrown world

definition and_then :: "step \<Rightarrow> (world \<Rightarrow> step) \<Rightarrow> step" where
  "and_then r f = (case r of Ok w \<Rightarrow> f w | Thrown w \<Rightarrow> Thrown w)"

definition mkdirSync :: "env \<Rightarrow> jsstring \<Rightarrow> world \<Rightarrow> step" where
  "mkdirSync e dir w =
     (if mkdir_ok e dir then Ok (w\<lparr>fs_log := fs_log w @ [Mkdir dir]\<rparr>) else Thrown w)"

definition writeFileSync :: "env \<Rightarrow> jsstring \<Rightarrow> jsstring \<Rightarrow> world \<Rightarrow> step" where
  "writeFileSync e path data w =
     (if write_ok e path
      then Ok (w\<lparr>files := (files w)(resolve e path \<mapsto> data),
                 fs_log := fs_log w @ [WriteFile path data]\<rparr>)
      else Thrown w)"

definition execSync :: "env \<Rightarrow> jsstring \<Rightarrow> world \<Rightarrow> step" where
  "execSync e command w =
     (let w' = w\<lparr>sh_log := sh_log w @ [command]\<rparr>
      in if sh_ok e command then Ok w' else Thrown w')"

text \<open>\<open>try { execSync(command) } catch (e) { console.log(...) }\<close>.\<close>

definition try_execSync :: "env \<Rightarrow> jsstring \<Rightarrow> world \<Rightarrow> world" where
  "try_execSync e command w = (case execSync e command w of Ok w' \<Rightarrow> w' | Thrown w' \<Rightarrow> w')"

subsection \<open>The statements after parsing (\<open>build-pipeline.js\<close> 48-92, \<open>part_000\<close> 94-140)\<close>

text \<open>The loop \<open>for (const change of changes)\<close>; afterwards \<open>hasChanges\<close> is \<open>changes \<noteq> []\<close>.\<close>

fun apply_changes :: "env \<Rightarrow> file_edit list \<Rightarrow> world \<Rightarrow> step" where
  "apply_changes e [] w = Ok w"
| "apply_changes e (change # rest) w =
     (let dir = dirname e (filename change) in
      and_then (if dir \<noteq> [] \<and> dir \<noteq> js ''.'' then mkdirSync e dir w else Ok w) (\<lambda>w.
      and_then (writeFileSync e (filename change) (content change) w) (\<lambda>w.
      apply_changes e rest w)))"

definition note_path :: "env \<Rightarrow> task \<Rightarrow> jsstring" where
  "note_path e t = js ''docs/progress/'' @ today e @ js ''-'' @ task_id t @ js ''.md''"

definition note_text :: "task \<Rightarrow> jsstring \<Rightarrow> jsstring" where
  "note_text t response =
     js ''# Task '' @ task_id t @ js ''\<newline>'' @ title t @ js ''\<newline>\<newline>'' @ take 1000 response"

definition commit_command :: "task \<Rightarrow> jsstring" where
  \<open>commit_command t =
     js ''git commit -m "feat(dealsync): '' @ take 50 (title t) @ js '' (#'' @ task_id t @ js '')"''\<close>

text \<open>
  \<open>backlog.completed.push(backlog.pending.shift())\<close>, where \<open>pending\<close> is \<open>t # rest\<close>.
\<close>

definition advance :: "backlog \<Rightarrow> task \<Rightarrow> task list \<Rightarrow> backlog" where
  "advance b t rest = b\<lparr>pending := rest, completed := completed b @ [t]\<rparr>"

text \<open>
  The two checks (\<open>build-pipeline.js\<close> 65-75, \<open>part_000\<close> 113-123), each in its own
  \<open>try\<close>.
\<close>

definition validate :: "env \<Rightarrow> world \<Rightarrow> world" where
  "validate e w =
     (let w = try_execSync e (js ''python manage.py check || true'') w;
          w = try_execSync e (js ''cd frontend && npm run build || true'') w
      in w)"

text \<open>
  Commit, push and the write of the queue document (\<open>build-pipeline.js\<close> 79-88,
  \<open>part_000\<close> 127-136).
\<close>

definition publish_and_advance :: "env \<Rightarrow> backlog \<Rightarrow> task \<Rightarrow> task list \<Rightarrow> world \<Rightarrow> step" where
  \<open>publish_and_advance e b t rest w =
     and_then (execSync e (js ''git config user.name "AI Development Agent"'') w) (\<lambda>w.
     and_then (execSync e (js ''git config user.email "bot@dealsync.com"'') w) (\<lambda>w.
     and_then (execSync e (js ''git add .'') w) (\<lambda>w.
     and_then (execSync e (commit_command t) w) (\<lambda>w.
     and_then (execSync e (js ''git push'') w) (\<lambda>w.
     writeFileSync e (js ''backlog.json'') (encode e (advance b t rest)) w)))))\<close>

definition apply_and_publish ::
    "env \<Rightarrow> backlog \<Rightarrow> task \<Rightarrow> task list \<Rightarrow> jsstring \<Rightarrow> file_edit list \<Rightarrow> world \<Rightarrow> step" where
  "apply_and_publish e b t rest response changes w =
     and_then (apply_changes e changes w) (\<lambda>w.
     and_then (mkdirSync e (js ''docs/progress'') w) (\<lambda>w.
     and_then (writeFileSync e (note_path e t) (note_text t response) w) (\<lambda>w.
     if changes \<noteq> [] then publish_and_advance e b t rest (validate e w) else Ok w)))"

text \<open>The end of the run: status 0 after a normal return, status 1 from the \<open>catch\<close>.\<close>

definition finish :: "step \<Rightarrow> world \<times> nat" where
  "finish r = (case r of Ok w \<Rightarrow> (w, 0) | Thrown w \<Rightarrow> (w, 1))"

subsection \<open>\<open>main\<close> of \<open>src/scripts/build-pipeline.js\<close> (lines 6-97)\<close>

text \<open>
  The run from the world \<open>w\<close>: the world it leaves and the exit status.  The prompt only
  goes to the service, whose answer is a parameter, so it is not built.
\<close>

definition main_build :: "env \<Rightarrow> world \<Rightarrow> world \<times> nat" where
  "main_build e w =
     (case files w (resolve e (js ''backlog.json'')) of
        None \<Rightarrow> (w, 1)
      | Some doc \<Rightarrow>
          (case decode e doc of
             None \<Rightarrow> (w, 1)
           | Some b \<Rightarrow>
               (case pending b of
                  [] \<Rightarrow> (w, 0)
                | t # rest \<Rightarrow>
                    if \<not> readdir_ok e then (w, 1)
                    else
                      (case generate e 0 of
                         Rejected message \<Rightarrow> (w, 1)
                       | Resolved response \<Rightarrow>
                           finish (apply_and_publish e b t rest response
                                     (parseAIResponse_split response) w)))))"

subsection \<open>\<open>main\<close> of \<open>src/unnamed/part_000\<close> (lines 47-145)\<close>

text \<open>
  \<open>None\<close>: the run never ends, because \<open>parseAIResponse\<close> does not return.  When
  \<open>callGeminiWithRetry\<close> returns \<open>undefined\<close>, reading \<open>result.response\<close> throws.
\<close>

definition main_retry :: "env \<Rightarrow> world \<Rightarrow> (world \<times> nat) option" where
  "main_retry e w =
     (case files w (resolve e (js ''backlog.json'')) of
        None \<Rightarrow> Some (w, 1)
      | Some doc \<Rightarrow>
          (case decode e doc of
             None \<Rightarrow> Some (w, 1)
           | Some b \<Rightarrow>
               (case pending b of
                  [] \<Rightarrow> Some (w, 0)
                | t # rest \<Rightarrow>
                    if \<not> readdir_ok e then Some (w, 1)
                    else
                      (case completion (callGeminiWithRetry (generate e) 3) of
                         Threw message \<Rightarrow> Some (w, 1)
                       | ReturnedUndefined \<Rightarrow> Some (w, 1)
                       | Returned response \<Rightarrow>
                           (case parseAIResponse response of
                              None \<Rightarrow> None
                            | Some changes \<Rightarrow>
                                if length changes = 0 then Some (w, 0)
                                else Some (finish (apply_and_publish e b t rest response
                                                     changes w)))))))"

text \<open>The world that a statement leaves, however it ends.\<close>

definition world_of :: "step \<Rightarrow> world" where
  "world_of r = (case r of Ok w \<Rightarrow> w | Thrown w \<Rightarrow> w)"

subsection \<open>A small world for examples\<close>

definition task1 :: task where
  "task1 = \<lparr>task_id = js ''1'', title = js ''first'', desc = js ''do the first'', phase = js ''p1''\<rparr>"

definition task2 :: task where
  "task2 = \<lparr>task_id = js ''2'', title = js ''second'', desc = js ''do the second'', phase = js ''p1''\<rparr>"

definition backlog0 :: backlog where
  "backlog0 = \<lparr>pending = [task1, task2], completed = [], phases = [(js ''p1'', js ''start'')]\<rparr>"

text \<open>
  A toy document format standing for JSON: the ids of the pending tasks, a bar, the ids of
  the completed tasks.  The only document that the toy \<open>JSON.parse\<close> accepts is the one
  of \<open>backlog0\<close>.
\<close>

definition encode0 :: "backlog \<Rightarrow> jsstring" where
  "encode0 b =
     str_join (js '' '') (map task_id (pending b)) @ js '' | '' @
     str_join (js '' '') (map task_id (completed b))"

definition decode0 :: "jsstring \<Rightarrow> backlog option" where
  "decode0 s = (if s = js ''1 2 | '' then Some backlog0 else None)"

definition world0 :: world where
  "world0 = \<lparr>files = [js ''backlog.json'' \<mapsto> js ''1 2 | ''], fs_log = [], sh_log = []\<rparr>"

text \<open>
  An environment in which the service answers \<open>response\<close>, every file operation succeeds
  and the commands succeed as \<open>sh\<close> says.  Its paths have no directory part.
\<close>

definition example_env :: "jsstring \<Rightarrow> (jsstring \<Rightarrow> bool) \<Rightarrow> env" where
  "example_env response sh =
     \<lparr>resolve = (\<lambda>p. p), decode = decode0, encode = encode0, dirname = (\<lambda>p. js ''.''),
      readdir_ok = True, generate = (\<lambda>i. Resolved response), mkdir_ok = (\<lambda>d. True),
      write_ok = (\<lambda>p. True), sh_ok = sh, today = js ''2025-01-01''\<rparr>"

definition all_succeed :: "jsstring \<Rightarrow> bool" where
  "all_succeed command = True"

definition push_fails :: "jsstring \<Rightarrow> bool" where
  "push_fails command = (command \<noteq> js ''git push'')"

text \<open>An environment in which only the queue document cannot be written.\<close>

definition queue_read_only :: "jsstring \<Rightarrow> bool" where
  "queue_read_only path = (path \<noteq> js ''backlog.json'')"

definition read_only_env :: "jsstring \<Rightarrow> env" where
  "read_only_env response = (example_env response all_succeed)\<lparr>write_ok := queue_read_only\<rparr>"

subsection \<open>Publish succeeded\<close>

text \<open>
  Between the worlds \<open>w\<close> and \<open>w'\<close> the command \<open>git push\<close> was run, and it exited with
  status 0.  It is the last command of lines 79-85 (127-133), and \<open>execSync\<close> throws when
  a command fails, so the commands before it have then succeeded as well.
\<close>

definition pushed :: "env \<Rightarrow> world \<Rightarrow> world \<Rightarrow> bool" where
  "pushed e w w' \<longleftrightarrow>
     js ''git push'' \<in> set (drop (length (sh_log w)) (sh_log w')) \<and> sh_ok e (js ''git push'')"

section \<open>Properties of the regular expression search\<close>

lemma match_at_index: "match_at t p = Some m \<Longrightarrow> index m = p \<and> p < end_index m"
  by (auto simp: match_at_def split: if_splits option.splits)

lemma search_Some:
  "search t p = Some m \<Longrightarrow>
     p \<le> index m \<and> index m \<le> length t \<and> match_at t (index m) = Some m"
proof (induction t p rule: search.induct)
  case (1 t p)
  then show ?case
    by (subst (asm) (2) search.simps)
       (auto split: if_splits option.splits dest: match_at_index)
qed

lemma search_None:
  "search t p = None \<Longrightarrow> p \<le> q \<Longrightarrow> q \<le> length t \<Longrightarrow> match_at t q = None"
proof (induction t p rule: search.induct)
  case (1 t p)
  then show ?case
    apply (subst (asm) (2) search.simps)
    apply (auto split: if_splits option.splits)
    by (metis Suc_leI le_neq_implies_less)
qed

lemma search_at_match:
  "match_at t p = Some m \<Longrightarrow> p \<le> length t \<Longrightarrow> search t p = Some m"
  by (subst search.simps) simp

lemma search_mono: "search t p = Some m \<Longrightarrow> q \<le> p \<Longrightarrow> search t q \<noteq> None"
  using search_Some[of t p m] search_None[of t q "index m"] by auto

section \<open>The loop of \<open>parseAIResponse\<close> (\<open>part_000\<close>) is left only when the text has no match\<close>

text \<open>
  When the look-ahead \<open>regex.exec(text)\<close> of line 29 fails, it resets \<open>lastIndex\<close> to
  0 and line 40 does not run, so the next evaluation of the loop condition searches from
  the start of the text again.  Hence, once the condition has held, it holds at every
  later evaluation.
\<close>

lemma loop_body_continues:
  assumes "search t (fst st) \<noteq> None"
  shows "\<exists>st'. loop_body t st = Inl st' \<and> search t (fst st') \<noteq> None"
proof -
  from assms obtain m where m: "search t (fst st) = Some m" by auto
  show ?thesis
  proof (cases "search t (end_index m)")
    case None
    have "search t 0 \<noteq> None" using search_mono[OF m, of 0] by simp
    with None m show ?thesis by (simp add: loop_body_def exec_def Let_def)
  next
    case (Some nm)
    from search_Some[OF Some] have "search t (index nm) = Some nm"
      by (simp add: search_at_match)
    with Some m show ?thesis by (simp add: loop_body_def exec_def Let_def)
  qed
qed

lemma parse_loop_Some_no_match:
  assumes "parse_loop t st = Some y"
  shows "search t (fst st) = None"
proof (rule parse_loop.raw_induct[where P = "\<lambda>t st y. search t (fst st) = None", OF _ assms])
  fix f t st and y :: "file_edit list"
  assume IH: "\<And>t st y. f t st = Some y \<Longrightarrow> search t (fst st) = None"
    and body: "(case loop_body t st of Inl st' \<Rightarrow> f t st' | Inr changes \<Rightarrow> Some changes) = Some y"
  show "search t (fst st) = None"
  proof (rule ccontr)
    assume "search t (fst st) \<noteq> None"
    then obtain st' where st': "loop_body t st = Inl st'" "search t (fst st') \<noteq> None"
      using loop_body_continues by blast
    from body st'(1) have "f t st' = Some y" by simp
    from IH[OF this] st'(2) show False by simp
  qed
qed

lemma parse_loop_diverges: "search t (fst st) \<noteq> None \<Longrightarrow> parse_loop t st = None"
  using parse_loop_Some_no_match[of t st] by (cases "parse_loop t st") auto

lemma parse_loop_returns: "search t (fst st) = None \<Longrightarrow> parse_loop t st = Some (snd st)"
  by (subst parse_loop.simps) (simp add: loop_body_def exec_def)

section \<open>Properties of the string functions\<close>

lemma trim_idem: "trim (trim s) = trim s"
proof -
  let ?a = "dropWhile is_space s"
  let ?b = "dropWhile is_space (rev ?a)"
  have "dropWhile is_space (rev ?b) = rev ?b"
  proof (cases "?b = []")
    case True
    show ?thesis by (simp only: True rev.simps dropWhile.simps)
  next
    case False
    have "?a \<noteq> []"
    proof
      assume e: "?a = []"
      have "?b = []" by (simp only: e rev.simps dropWhile.simps)
      with False show False by simp
    qed
    then have a: "\<not> is_space (hd ?a)" by (rule hd_dropWhile)
    obtain ys where "rev ?a = ys @ ?b"
      by (metis takeWhile_dropWhile_id)
    then have "?a = rev ?b @ rev ys" by (metis rev_append rev_rev_ident)
    with False have "hd (rev ?b) = hd ?a" by (metis hd_append2 rev_is_Nil_conv)
    with a show ?thesis by (metis dropWhile_eq_self_iff)
  qed
  then show ?thesis by (simp add: trim_def)
qed

lemma END_has_no_period: "\<not> str_includes (js ''END'') (js ''.'')"
  by code_simp

lemma in_set_map_filter:
  "e \<in> set (List.map_filter f xs) \<longleftrightarrow> (\<exists>x\<in>set xs. f x = Some e)"
  by (induction xs) (auto simp: map_filter_simps split: option.splits)

section \<open>Every pushed edit passed the check\<close>

lemma parse_part_file: "parse_part part = Some e \<Longrightarrow> looks_like_file e"
  using END_has_no_period
  by (auto simp: parse_part_def Let_def trim_idem split: if_splits)

lemma split_edits_files: "e \<in> set (parseAIResponse_split t) \<Longrightarrow> looks_like_file e"
  unfolding parseAIResponse_split_def in_set_map_filter using parse_part_file by blast

lemma loop_body_files:
  assumes "loop_body t st = Inl st'" and "\<forall>e\<in>set (snd st). looks_like_file e"
  shows "\<forall>e\<in>set (snd st'). looks_like_file e"
  using assms END_has_no_period
  by (auto simp: loop_body_def Let_def trim_idem split: prod.splits option.splits if_splits)

lemma loop_state_files: "\<forall>e\<in>set (snd (loop_state t n)). looks_like_file e"
proof (induction n)
  case 0
  then show ?case by simp
next
  case (Suc n)
  then show ?case
    by (cases "loop_body t (loop_state t n)") (auto dest: loop_body_files)
qed

lemma parseAIResponse_Some:
  "parseAIResponse t = Some es \<Longrightarrow> fst (exec t 0) = None \<and> es = []"
  using parse_loop_Some_no_match[of t "(0, [])" es] parse_loop_returns[of t "(0, [])"]
  by (auto simp: parseAIResponse_def exec_def split: option.splits)

section \<open>Claims about the parsers\<close>

text \<open>
  C1.  The end-to-end text of the specification,
  \<open>=== a.txt ===\nhello\n=== b/c.py ===\nprint(1)\n=== END ===\<close>, should be parsed into the
  two edits \<open>a.txt\<close>/\<open>hello\<close> and \<open>b/c.py\<close>/\<open>print(1)\<close>.  Neither parser does so: the
  loop of \<open>part_000\<close> never ends on this text (after the block \<open>END\<close> it starts again at
  the first delimiter), and the parser of \<open>build-pipeline.js\<close> returns no edit (no
  piece between two \<open>===\<close> has two lines).
\<close>

theorem parseAIResponse_end_to_end_text:
  "parseAIResponse
     (js ''=== a.txt ===\<newline>hello\<newline>=== b/c.py ===\<newline>print(1)\<newline>=== END ==='') = None
   \<and> parseAIResponse_split
     (js ''=== a.txt ===\<newline>hello\<newline>=== b/c.py ===\<newline>print(1)\<newline>=== END ==='') = []"
proof
  show "parseAIResponse
     (js ''=== a.txt ===\<newline>hello\<newline>=== b/c.py ===\<newline>print(1)\<newline>=== END ==='') = None"
    unfolding parseAIResponse_def by (rule parse_loop_diverges) code_simp
  show "parseAIResponse_split
     (js ''=== a.txt ===\<newline>hello\<newline>=== b/c.py ===\<newline>print(1)\<newline>=== END ==='') = []"
    by code_simp
qed

text \<open>
  C2.  Every edit that \<open>parseAIResponse\<close> returns has a file name that includes a period
  and a content that is trimmed and not empty; an edit named \<open>END\<close> is never among them.
  This holds for the parser of \<open>build-pipeline.js\<close>, for the list \<open>changes\<close> of
  \<open>part_000\<close> after any number of rounds of its loop, and for what \<open>part_000\<close>
  returns.
\<close>

theorem parseAIResponse_edits_look_like_files:
  "(\<forall>e \<in> set (parseAIResponse_split t). looks_like_file e) \<and>
   (\<forall>e \<in> set (snd (loop_state t n)). looks_like_file e) \<and>
   (\<forall>es. parseAIResponse t = Some es \<longrightarrow> (\<forall>e \<in> set es. looks_like_file e))"
  using split_edits_files[of _ t] loop_state_files[of t n] parseAIResponse_Some[of t]
  by (intro conjI ballI allI impI) auto

theorem parseAIResponse_edits_look_like_files_witness:
  "\<lparr>filename = js ''a.txt'', content = js ''hello''\<rparr>
     \<in> set (parseAIResponse_split (js ''a.txt\<newline>hello'')) \<and>
   looks_like_file \<lparr>filename = js ''a.txt'', content = js ''hello''\<rparr> \<and>
   \<lparr>filename = js ''b/c.py'', content = js ''print(1)''\<rparr>
     \<in> set (snd (loop_state
         (js ''=== a.txt ===\<newline>hello\<newline>=== b/c.py ===\<newline>print(1)\<newline>=== END ==='') 2)) \<and>
   looks_like_file \<lparr>filename = js ''b/c.py'', content = js ''print(1)''\<rparr>"
proof -
  have m1: "\<lparr>filename = js ''a.txt'', content = js ''hello''\<rparr>
     \<in> set (parseAIResponse_split (js ''a.txt\<newline>hello''))"
    by code_simp
  have m2: "\<lparr>filename = js ''b/c.py'', content = js ''print(1)''\<rparr>
     \<in> set (snd (loop_state
         (js ''=== a.txt ===\<newline>hello\<newline>=== b/c.py ===\<newline>print(1)\<newline>=== END ==='') 2))"
    by code_simp
  from m1 parseAIResponse_edits_look_like_files[of "js ''a.txt\<newline>hello''" 0]
  have f1: "looks_like_file \<lparr>filename = js ''a.txt'', content = js ''hello''\<rparr>"
    by blast
  from m2 parseAIResponse_edits_look_like_files[of
      "js ''=== a.txt ===\<newline>hello\<newline>=== b/c.py ===\<newline>print(1)\<newline>=== END ===''" 2]
  have f2: "looks_like_file \<lparr>filename = js ''b/c.py'', content = js ''print(1)''\<rparr>"
    by blast
  from m1 m2 f1 f2 show ?thesis by blast
qed

text \<open>
  C3.  Three blocks \<open>a.txt\<close>, \<open>b.txt\<close>, \<open>c.txt\<close> with the contents \<open>A\<close>, \<open>B\<close>, \<open>C\<close>
  should come back as three edits in this order.  On this text \<open>part_000\<close> does not
  return (after three rounds \<open>changes\<close> holds the three edits in order and
  \<open>lastIndex\<close> is 0 again, and the fourth round pushes \<open>a.txt\<close> once more), and
  \<open>build-pipeline.js\<close> returns no edit.
\<close>

theorem parseAIResponse_three_blocks:
  "parseAIResponse
     (js ''=== a.txt ===\<newline>A\<newline>=== b.txt ===\<newline>B\<newline>=== c.txt ===\<newline>C'') = None
   \<and> loop_state
     (js ''=== a.txt ===\<newline>A\<newline>=== b.txt ===\<newline>B\<newline>=== c.txt ===\<newline>C'') 3 =
       (0, [\<lparr>filename = js ''a.txt'', content = js ''A''\<rparr>,
            \<lparr>filename = js ''b.txt'', content = js ''B''\<rparr>,
            \<lparr>filename = js ''c.txt'', content = js ''C''\<rparr>])
   \<and> loop_state
     (js ''=== a.txt ===\<newline>A\<newline>=== b.txt ===\<newline>B\<newline>=== c.txt ===\<newline>C'') 4 =
       (16, [\<lparr>filename = js ''a.txt'', content = js ''A''\<rparr>,
             \<lparr>filename = js ''b.txt'', content = js ''B''\<rparr>,
             \<lparr>filename = js ''c.txt'', content = js ''C''\<rparr>,
             \<lparr>filename = js ''a.txt'', content = js ''A''\<rparr>])
   \<and> parseAIResponse_split
     (js ''=== a.txt ===\<newline>A\<newline>=== b.txt ===\<newline>B\<newline>=== c.txt ===\<newline>C'') = []"
proof (intro conjI)
  show "parseAIResponse
     (js ''=== a.txt ===\<newline>A\<newline>=== b.txt ===\<newline>B\<newline>=== c.txt ===\<newline>C'') = None"
    unfolding parseAIResponse_def by (rule parse_loop_diverges) code_simp
qed code_simp+

text \<open>
  C4.  A text without an accepted block should give the empty list.  Both parsers return
  the empty list for \<open>no delimiters here\<close>, but on the text \<open>=== END ===\<close>, whose only
  block is not accepted, \<open>part_000\<close> does not return: its loop finds the same
  delimiter in every round.
\<close>

theorem parseAIResponse_end_marker_only:
  "parseAIResponse (js ''=== END ==='') = None \<and>
   loop_state (js ''=== END ==='') 1 = (0, []) \<and>
   fst (exec (js ''=== END ==='') 0) \<noteq> None \<and>
   parseAIResponse_split (js ''=== END ==='') = [] \<and>
   parseAIResponse (js ''no delimiters here'') = Some [] \<and>
   parseAIResponse_split (js ''no delimiters here'') = []"
proof (intro conjI)
  show "parseAIResponse (js ''=== END ==='') = None"
    unfolding parseAIResponse_def by (rule parse_loop_diverges) code_simp
qed code_simp+

text \<open>
  C10.  The two parsers should return the same edits for every text.  They do not: the
  text \<open>a.txt\nhello\<close> has no delimiter, and \<open>part_000\<close> returns no edit for it, while
  \<open>build-pipeline.js\<close> takes the whole text as one piece and returns an edit for a file
  \<open>a.txt\<close>; on the block \<open>=== a.txt ===\nhello\<close>, written as the prompt asks,
  \<open>part_000\<close> does not return and \<open>build-pipeline.js\<close> returns no edit.
\<close>

theorem parseAIResponse_versions_differ:
  "parseAIResponse (js ''a.txt\<newline>hello'') = Some [] \<and>
   parseAIResponse_split (js ''a.txt\<newline>hello'') =
     [\<lparr>filename = js ''a.txt'', content = js ''hello''\<rparr>] \<and>
   parseAIResponse (js ''=== a.txt ===\<newline>hello'') = None \<and>
   loop_state (js ''=== a.txt ===\<newline>hello'') 1 =
     (0, [\<lparr>filename = js ''a.txt'', content = js ''hello''\<rparr>]) \<and>
   parseAIResponse_split (js ''=== a.txt ===\<newline>hello'') = []"
proof (intro conjI)
  show "parseAIResponse (js ''=== a.txt ===\<newline>hello'') = None"
    unfolding parseAIResponse_def by (rule parse_loop_diverges) code_simp
qed code_simp+

section \<open>Claims about \<open>callGeminiWithRetry\<close>\<close>

text \<open>
  The first 26 multiplications of \<open>delayMs\<close> by 1.5 are exact: the products are doubles.
\<close>

lemma times_1_5_exact_steps:
  "times_1_5 (Num (60000 * (3 / 2) ^ 0)) = Num (60000 * (3 / 2) ^ Suc 0)"
  "times_1_5 (Num (60000 * (3 / 2) ^ 1)) = Num (60000 * (3 / 2) ^ Suc 1)"
  "times_1_5 (Num (60000 * (3 / 2) ^ 2)) = Num (60000 * (3 / 2) ^ Suc 2)"
  "times_1_5 (Num (60000 * (3 / 2) ^ 3)) = Num (60000 * (3 / 2) ^ Suc 3)"
  "times_1_5 (Num (60000 * (3 / 2) ^ 4)) = Num (60000 * (3 / 2) ^ Suc 4)"
  "times_1_5 (Num (60000 * (3 / 2) ^ 5)) = Num (60000 * (3 / 2) ^ Suc 5)"
  "times_1_5 (Num (60000 * (3 / 2) ^ 6)) = Num (60000 * (3 / 2) ^ Suc 6)"
  "times_1_5 (Num (60000 * (3 / 2) ^ 7)) = Num (60000 * (3 / 2) ^ Suc 7)"
  "times_1_5 (Num (60000 * (3 / 2) ^ 8)) = Num (60000 * (3 / 2) ^ Suc 8)"
  "times_1_5 (Num (60000 * (3 / 2) ^ 9)) = Num (60000 * (3 / 2) ^ Suc 9)"
  "times_1_5 (Num (60000 * (3 / 2) ^ 10)) = Num (60000 * (3 / 2) ^ Suc 10)"
  "times_1_5 (Num (60000 * (3 / 2) ^ 11)) = Num (60000 * (3 / 2) ^ Suc 11)"
  "times_1_5 (Num (60000 * (3 / 2) ^ 12)) = Num (60000 * (3 / 2) ^ Suc 12)"
  "times_1_5 (Num (60000 * (3 / 2) ^ 13)) = Num (60000 * (3 / 2) ^ Suc 13)"
  "times_1_5 (Num (60000 * (3 / 2) ^ 14)) = Num (60000 * (3 / 2) ^ Suc 14)"
  "times_1_5 (Num (60000 * (3 / 2) ^ 15)) = Num (60000 * (3 / 2) ^ Suc 15)"
  "times_1_5 (Num (60000 * (3 / 2) ^ 16)) = Num (60000 * (3 / 2) ^ Suc 16)"
  "times_1_5 (Num (60000 * (3 / 2) ^ 17)) = Num (60000 * (3 / 2) ^ Suc 17)"
  "times_1_5 (Num (60000 * (3 / 2) ^ 18)) = Num (60000 * (3 / 2) ^ Suc 18)"
  "times_1_5 (Num (60000 * (3 / 2) ^ 19)) = Num (60000 * (3 / 2) ^ Suc 19)"
  "times_1_5 (Num (60000 * (3 / 2) ^ 20)) = Num (60000 * (3 / 2) ^ Suc 20)"
  "times_1_5 (Num (60000 * (3 / 2) ^ 21)) = Num (60000 * (3 / 2) ^ Suc 21)"
  "times_1_5 (Num (60000 * (3 / 2) ^ 22)) = Num (60000 * (3 / 2) ^ Suc 22)"
  "times_1_5 (Num (60000 * (3 / 2) ^ 23)) = Num (60000 * (3 / 2) ^ Suc 23)"
  "times_1_5 (Num (60000 * (3 / 2) ^ 24)) = Num (60000 * (3 / 2) ^ Suc 24)"
  "times_1_5 (Num (60000 * (3 / 2) ^ 25)) = Num (60000 * (3 / 2) ^ Suc 25)"
  by code_simp+

lemma times_1_5_exact:
  assumes "j < 26"
  shows "times_1_5 (Num (60000 * (3 / 2) ^ j)) = Num (60000 * (3 / 2) ^ Suc j)"
proof -
  from assms have "j = 0 \<or> j = 1 \<or> j = 2 \<or> j = 3 \<or> j = 4 \<or> j = 5 \<or> j = 6
      \<or> j = 7 \<or> j = 8 \<or> j = 9 \<or> j = 10 \<or> j = 11 \<or> j = 12 \<or>
      j = 13 \<or> j = 14 \<or> j = 15 \<or> j = 16 \<or> j = 17 \<or> j = 18 \<or> j
      = 19 \<or> j = 20 \<or> j = 21 \<or> j = 22 \<or> j = 23 \<or> j = 24 \<or> j =
      25"
    by presburger
  then show ?thesis by (elim disjE) (simp_all only: times_1_5_exact_steps)
qed

lemma delayMs_exact: "j \<le> 26 \<Longrightarrow> (times_1_5 ^^ j) (Num 60000) = Num (60000 * (3 / 2) ^ j)"
proof (induction j)
  case 0
  then show ?case by simp
next
  case (Suc j)
  then have "(times_1_5 ^^ j) (Num 60000) = Num (60000 * (3 / 2) ^ j)" and "j < 26" by simp_all
  then show ?case using times_1_5_exact[of j] by simp
qed

text \<open>
  While the calls \<open>i, ..., k - 1\<close> are rejected with a rate-limit message and \<open>k\<close> is
  within the budget, the loop goes from round \<open>i\<close> to round \<open>k\<close>, sleeping
  \<open>d\<close>, then \<open>d\<close> times 1.5, and so on, in between.
\<close>

lemma retry_loop_skip:
  assumes "int k < retries" and "i \<le> k"
    and "\<forall>j. i \<le> j \<and> j < k \<longrightarrow> (\<exists>m. model j = Rejected m \<and> str_includes m (js ''429''))"
  shows "retry_loop model retries i d slept =
         retry_loop model retries k ((times_1_5 ^^ (k - i)) d)
           (slept @ map (\<lambda>j. (times_1_5 ^^ j) d) [0..<k - i])"
  using assms
proof (induction "k - i" arbitrary: i d slept)
  case 0
  then show ?case by simp
next
  case (Suc n)
  then have ik: "i < k" and n: "n = k - Suc i" by auto
  from Suc.prems(3) ik obtain m where m: "model i = Rejected m" "str_includes m (js ''429'')"
    by auto
  from ik Suc.prems(1) have r: "int i < retries" "int i \<noteq> retries - 1" by auto
  from ik have ki: "k - i = Suc (k - Suc i)" by simp
  have "retry_loop model retries i d slept =
        retry_loop model retries (Suc i) (times_1_5 d) (slept @ [d])"
    by (subst retry_loop.simps) (simp add: m r)
  also have "\<dots> = retry_loop model retries k ((times_1_5 ^^ (k - Suc i)) (times_1_5 d))
           ((slept @ [d]) @ map (\<lambda>j. (times_1_5 ^^ j) (times_1_5 d)) [0..<k - Suc i])"
    using Suc.hyps(1)[OF n Suc.prems(1)] ik Suc.prems(3) by auto
  also have "(times_1_5 ^^ (k - Suc i)) (times_1_5 d) = (times_1_5 ^^ (k - i)) d"
    unfolding ki by (simp add: funpow_swap1)
  also have "(slept @ [d]) @ map (\<lambda>j. (times_1_5 ^^ j) (times_1_5 d)) [0..<k - Suc i] =
             slept @ map (\<lambda>j. (times_1_5 ^^ j) d) [0..<k - i]"
  proof -
    have "[0..<k - i] = 0 # map Suc [0..<k - Suc i]"
      unfolding ki by (simp add: upt_conv_Cons map_Suc_upt del: upt_Suc)
    then show ?thesis by (simp add: comp_def funpow_swap1)
  qed
  finally show ?case .
qed

text \<open>
  C5.  With a service that is always rate limited the function should fail with the last
  error after at most \<open>retries\<close> attempts, and the delay before retry \<open>k\<close> should be
  60 seconds times 1.5 to the power \<open>k - 1\<close>.  With \<open>retries = 0\<close> the \<open>for\<close> loop is
  not entered: there is no attempt, and the function returns \<open>undefined\<close> instead of
  failing.  With \<open>retries = 29\<close> the delay before retry 28 is not \<open>60000 * 1.5 ^ 27\<close>
  milliseconds, which no double holds, but the double next to it.
\<close>

theorem callGeminiWithRetry_zero_or_many_retries:
  "completion (callGeminiWithRetry always_rate_limited 0) = ReturnedUndefined \<and>
   attempts (callGeminiWithRetry always_rate_limited 0) = 0 \<and>
   delays (callGeminiWithRetry always_rate_limited 29) ! 27 =
     Num (14297995284350624 / 4194304) \<and>
   (60000 * (3 / 2) ^ 27 :: rat) = 14297995284350625 / 4194304 \<and>
   delays (callGeminiWithRetry always_rate_limited 29) ! 27 \<noteq> Num (60000 * (3 / 2) ^ 27)"
  by code_simp

text \<open>
  C5, amended.  For \<open>retries \<ge> 1\<close>: when every attempt is rejected with a rate-limit
  message, exactly \<open>retries\<close> attempts are made and the function then throws the error of
  the last attempt; there is one delay before each retry, and the delay passed to
  \<open>setTimeout\<close> before retry \<open>k\<close> is \<open>60000 * 1.5 ^ (k - 1)\<close> milliseconds for every
  \<open>k\<close> up to 27.
\<close>

theorem callGeminiWithRetry_rate_limited:
  assumes "1 \<le> retries"
    and "\<forall>i. int i < retries \<longrightarrow> (\<exists>m. model i = Rejected m \<and> str_includes m (js ''429''))"
  shows "attempts (callGeminiWithRetry model retries) = nat retries \<and>
         (\<exists>m. model (nat retries - 1) = Rejected m \<and>
              completion (callGeminiWithRetry model retries) = Threw m) \<and>
         length (delays (callGeminiWithRetry model retries)) = nat retries - 1 \<and>
         (\<forall>k. 1 \<le> k \<and> k < nat retries \<and> k \<le> 27 \<longrightarrow>
              delays (callGeminiWithRetry model retries) ! (k - 1) =
                Num (60000 * (3 / 2) ^ (k - 1)))"
proof -
  define n where "n = nat retries - 1"
  from assms(1) have n: "int n < retries" "int n = retries - 1" "Suc n = nat retries"
    unfolding n_def by auto
  from assms(2) n(1) obtain m where m: "model n = Rejected m" by blast
  have "callGeminiWithRetry model retries =
        retry_loop model retries n ((times_1_5 ^^ n) (Num 60000))
          (map (\<lambda>j. (times_1_5 ^^ j) (Num 60000)) [0..<n])"
    unfolding callGeminiWithRetry_def
    using retry_loop_skip[OF n(1), of 0 model "Num 60000" "[]"] assms(2) n(1) by simp
  also have "\<dots> = \<lparr>attempts = Suc n, delays = map (\<lambda>j. (times_1_5 ^^ j) (Num 60000)) [0..<n],
                    completion = Threw m\<rparr>"
    by (subst retry_loop.simps) (simp add: n m)
  finally have run: "callGeminiWithRetry model retries =
      \<lparr>attempts = nat retries, delays = map (\<lambda>j. (times_1_5 ^^ j) (Num 60000)) [0..<n],
       completion = Threw m\<rparr>"
    by (simp only: n(3))
  have d: "delays (callGeminiWithRetry model retries) ! (k - 1) = Num (60000 * (3 / 2) ^ (k - 1))"
    if "1 \<le> k" "k < nat retries" "k \<le> 27" for k
  proof -
    from that n(3) have "k - 1 < n" "k - 1 \<le> 26" by auto
    then show ?thesis by (simp add: run delayMs_exact)
  qed
  have a: "attempts (callGeminiWithRetry model retries) = nat retries"
    by (simp add: run)
  have c: "\<exists>m. model (nat retries - 1) = Rejected m \<and>
             completion (callGeminiWithRetry model retries) = Threw m"
    using m run unfolding n_def by simp
  have l: "length (delays (callGeminiWithRetry model retries)) = nat retries - 1"
    by (simp add: run n_def)
  from a c l d show ?thesis by blast
qed

theorem callGeminiWithRetry_rate_limited_witness:
  "attempts (callGeminiWithRetry always_rate_limited 3) = 3 \<and>
   completion (callGeminiWithRetry always_rate_limited 3) = Threw (js ''[429 Too Many Requests]'') \<and>
   length (delays (callGeminiWithRetry always_rate_limited 3)) = 2 \<and>
   delays (callGeminiWithRetry always_rate_limited 3) ! 0 = Num 60000 \<and>
   delays (callGeminiWithRetry always_rate_limited 3) ! 1 = Num 90000"
proof -
  have h1: "(1::int) \<le> 3" by simp
  have s: "str_includes (js ''[429 Too Many Requests]'') (js ''429'')" by code_simp
  have h2: "\<forall>i. int i < 3 \<longrightarrow>
              (\<exists>m. always_rate_limited i = Rejected m \<and> str_includes m (js ''429''))"
    using s by (simp add: always_rate_limited_def)
  from callGeminiWithRetry_rate_limited[OF h1 h2]
  have a: "attempts (callGeminiWithRetry always_rate_limited 3) = nat 3"
    and c: "\<exists>m. always_rate_limited (nat 3 - 1) = Rejected m \<and>
              completion (callGeminiWithRetry always_rate_limited 3) = Threw m"
    and l: "length (delays (callGeminiWithRetry always_rate_limited 3)) = nat 3 - 1"
    and d: "\<forall>k. 1 \<le> k \<and> k < nat 3 \<and> k \<le> 27 \<longrightarrow>
              delays (callGeminiWithRetry always_rate_limited 3) ! (k - 1) =
                Num (60000 * (3 / 2) ^ (k - 1))"
    by blast+
  from c obtain m where m: "always_rate_limited (nat 3 - 1) = Rejected m"
    and t: "completion (callGeminiWithRetry always_rate_limited 3) = Threw m" by blast
  from m have "m = js ''[429 Too Many Requests]''" by (simp add: always_rate_limited_def)
  with t have c': "completion (callGeminiWithRetry always_rate_limited 3) =
      Threw (js ''[429 Too Many Requests]'')" by simp
  from d[rule_format, of 1] have d0: "delays (callGeminiWithRetry always_rate_limited 3) ! 0 = Num 60000"
    by simp
  from d[rule_format, of 2] have d1: "delays (callGeminiWithRetry always_rate_limited 3) ! 1 = Num 90000"
    by simp
  from a c' l d0 d1 show ?thesis by simp
qed

text \<open>
  C6.  When the attempts before attempt \<open>k\<close> were rate limited and attempt \<open>k\<close> (within
  the budget) is rejected with a message that does not include \<open>429\<close>, the function
  throws that error at once: attempt \<open>k\<close> is the last one, and the only delays are the
  \<open>k\<close> delays before it, 60000 milliseconds multiplied \<open>j\<close> times by 1.5 (which is
  \<open>60000 * 1.5 ^ j\<close> up to \<open>j = 26\<close>).
\<close>

theorem callGeminiWithRetry_other_error:
  assumes "int k < retries"
    and "\<forall>j<k. \<exists>m. model j = Rejected m \<and> str_includes m (js ''429'')"
    and "model k = Rejected message"
    and "\<not> str_includes message (js ''429'')"
  shows "callGeminiWithRetry model retries =
           \<lparr>attempts = Suc k, delays = map (\<lambda>j. (times_1_5 ^^ j) (Num 60000)) [0..<k],
            completion = Threw message\<rparr> \<and>
         (\<forall>j. j < k \<and> j \<le> 26 \<longrightarrow>
              delays (callGeminiWithRetry model retries) ! j = Num (60000 * (3 / 2) ^ j))"
proof -
  have "callGeminiWithRetry model retries =
        retry_loop model retries k ((times_1_5 ^^ k) (Num 60000))
          (map (\<lambda>j. (times_1_5 ^^ j) (Num 60000)) [0..<k])"
    unfolding callGeminiWithRetry_def
    using retry_loop_skip[OF assms(1), of 0 model "Num 60000" "[]"] assms(2) by simp
  also have "\<dots> = \<lparr>attempts = Suc k, delays = map (\<lambda>j. (times_1_5 ^^ j) (Num 60000)) [0..<k],
                    completion = Threw message\<rparr>"
    by (subst retry_loop.simps) (simp add: assms)
  finally have run: "callGeminiWithRetry model retries =
      \<lparr>attempts = Suc k, delays = map (\<lambda>j. (times_1_5 ^^ j) (Num 60000)) [0..<k],
       completion = Threw message\<rparr>" .
  have "delays (callGeminiWithRetry model retries) ! j = Num (60000 * (3 / 2) ^ j)"
    if "j < k" "j \<le> 26" for j
    using that by (simp add: run delayMs_exact)
  with run show ?thesis by blast
qed

theorem callGeminiWithRetry_other_error_witness:
  "callGeminiWithRetry limited_then_broken 3 =
     \<lparr>attempts = 2, delays = [Num 60000], completion = Threw (js ''[500 Internal]'')\<rparr>"
proof -
  have h1: "int 1 < 3" by simp
  have s: "str_includes (js ''[429 Too Many Requests]'') (js ''429'')" by code_simp
  have h2: "\<forall>j<1. \<exists>m. limited_then_broken j = Rejected m \<and> str_includes m (js ''429'')"
    using s by (simp add: limited_then_broken_def)
  have h3: "limited_then_broken 1 = Rejected (js ''[500 Internal]'')"
    by (simp add: limited_then_broken_def)
  have h4: "\<not> str_includes (js ''[500 Internal]'') (js ''429'')" by code_simp
  from callGeminiWithRetry_other_error[OF h1 h2 h3 h4]
  have "callGeminiWithRetry limited_then_broken 3 =
      \<lparr>attempts = Suc 1, delays = map (\<lambda>j. (times_1_5 ^^ j) (Num 60000)) [0..<1],
       completion = Threw (js ''[500 Internal]'')\<rparr>"
    by (rule conjunct1)
  then show ?thesis by simp
qed

section \<open>What the statements of the run do to the files\<close>

lemma mkdirSync_files: "files (world_of (mkdirSync e d w)) = files w"
  by (simp add: mkdirSync_def world_of_def)

lemma execSync_Ok: "execSync e c w = Ok w' \<Longrightarrow> sh_ok e c \<and> files w' = files w"
  by (auto simp: execSync_def Let_def split: if_splits)

lemma execSync_Thrown: "execSync e c w = Thrown w' \<Longrightarrow> files w' = files w"
  by (auto simp: execSync_def Let_def split: if_splits)

lemma try_execSync_files: "files (try_execSync e c w) = files w"
  by (auto simp: try_execSync_def split: step.splits dest: execSync_Ok execSync_Thrown)

lemma validate_files: "files (validate e w) = files w"
  by (simp add: validate_def Let_def try_execSync_files)

lemma writeFileSync_other:
  "resolve e p \<noteq> q \<Longrightarrow> files (world_of (writeFileSync e p d w)) q = files w q"
  by (simp add: writeFileSync_def world_of_def)

lemma writeFileSync_Thrown: "writeFileSync e p d w = Thrown w' \<Longrightarrow> w' = w"
  by (simp add: writeFileSync_def split: if_splits)

lemma and_then_world:
  assumes "files (world_of r) q = files w q"
    and "\<And>w1. r = Ok w1 \<Longrightarrow> files (world_of (f w1)) q = files w1 q"
  shows "files (world_of (and_then r f)) q = files w q"
  using assms by (cases r) (auto simp: and_then_def world_of_def)

lemma apply_changes_files:
  "\<forall>c\<in>set changes. resolve e (filename c) \<noteq> q \<Longrightarrow>
   files (world_of (apply_changes e changes w)) q = files w q"
proof (induction changes arbitrary: w)
  case Nil
  then show ?case by (simp add: world_of_def)
next
  case (Cons c cs)
  let ?dir = "dirname e (filename c)"
  let ?r1 = "if ?dir \<noteq> [] \<and> ?dir \<noteq> js ''.'' then mkdirSync e ?dir w else Ok w"
  have r1: "files (world_of ?r1) q = files w q"
    by (simp add: mkdirSync_files) (simp add: world_of_def)
  show ?case
    unfolding apply_changes.simps Let_def
  proof (rule and_then_world[OF r1])
    fix w1
    show "files (world_of (and_then (writeFileSync e (filename c) (content c) w1)
             (apply_changes e cs))) q = files w1 q"
    proof (rule and_then_world)
      show "files (world_of (writeFileSync e (filename c) (content c) w1)) q = files w1 q"
        using Cons.prems by (simp add: writeFileSync_other)
    next
      fix w2
      show "files (world_of (apply_changes e cs w2)) q = files w2 q"
        using Cons by simp
    qed
  qed
qed


section \<open>What the statements of the run do to the command log\<close>

lemma mkdirSync_sh_log: "sh_log (world_of (mkdirSync e d w)) = sh_log w"
  by (simp add: mkdirSync_def world_of_def)

lemma writeFileSync_sh_log: "sh_log (world_of (writeFileSync e p d w)) = sh_log w"
  by (simp add: writeFileSync_def world_of_def)

lemma and_then_sh_log:
  assumes "sh_log (world_of r) = sh_log w"
    and "\<And>w1. r = Ok w1 \<Longrightarrow> sh_log (world_of (f w1)) = sh_log w1"
  shows "sh_log (world_of (and_then r f)) = sh_log w"
  using assms by (cases r) (auto simp: and_then_def world_of_def)

lemma apply_changes_sh_log: "sh_log (world_of (apply_changes e changes w)) = sh_log w"
proof (induction changes arbitrary: w)
  case Nil
  then show ?case by (simp add: world_of_def)
next
  case (Cons c cs)
  let ?dir = "dirname e (filename c)"
  let ?r1 = "if ?dir \<noteq> [] \<and> ?dir \<noteq> js ''.'' then mkdirSync e ?dir w else Ok w"
  have r1: "sh_log (world_of ?r1) = sh_log w"
    by (simp add: mkdirSync_sh_log) (simp add: world_of_def)
  show ?case
    unfolding apply_changes.simps Let_def
  proof (rule and_then_sh_log[OF r1])
    fix w1
    show "sh_log (world_of (and_then (writeFileSync e (filename c) (content c) w1)
             (apply_changes e cs))) = sh_log w1"
      by (rule and_then_sh_log) (simp_all add: writeFileSync_sh_log Cons)
  qed
qed

lemma validate_sh_log:
  "sh_log (validate e w) =
     sh_log w @ [js ''python manage.py check || true'', js ''cd frontend && npm run build || true'']"
  by (simp add: validate_def try_execSync_def execSync_def Let_def)

lemma commands_not_push:
  "js ''python manage.py check || true'' \<noteq> js ''git push''"
  "js ''cd frontend && npm run build || true'' \<noteq> js ''git push''"
  \<open>js ''git config user.name "AI Development Agent"'' \<noteq> js ''git push''\<close>
  \<open>js ''git config user.email "bot@dealsync.com"'' \<noteq> js ''git push''\<close>
  "js ''git add .'' \<noteq> js ''git push''"
  "commit_command t \<noteq> js ''git push''"
  by (simp_all add: commit_command_def js_def)

lemma not_pushed: "sh_log w' = sh_log w \<Longrightarrow> \<not> pushed e w w'"
  by (simp add: pushed_def)

section \<open>The three ways in which commit, push and the queue write end\<close>

lemma publish_and_advance_result:
  "(\<exists>w' cmds. publish_and_advance e b t rest w = Thrown w' \<and> files w' = files w \<and>
       sh_log w' = sh_log w @ cmds \<and>
       \<not> (js ''git push'' \<in> set cmds \<and> sh_ok e (js ''git push''))) \<or>
   (\<exists>w' cmds. publish_and_advance e b t rest w = Thrown w' \<and> files w' = files w \<and>
       sh_log w' = sh_log w @ cmds \<and>
       js ''git push'' \<in> set cmds \<and> sh_ok e (js ''git push'') \<and> sh_ok e (commit_command t) \<and>
       \<not> write_ok e (js ''backlog.json'')) \<or>
   (\<exists>w' cmds. publish_and_advance e b t rest w = Ok w' \<and>
       files w' = (files w)(resolve e (js ''backlog.json'') \<mapsto> encode e (advance b t rest)) \<and>
       sh_log w' = sh_log w @ cmds \<and>
       js ''git push'' \<in> set cmds \<and> sh_ok e (js ''git push'') \<and> sh_ok e (commit_command t) \<and>
       write_ok e (js ''backlog.json''))"
  unfolding publish_and_advance_def and_then_def execSync_def writeFileSync_def Let_def
  using commands_not_push
  by (simp split: step.splits)

text \<open>
  The statements after parsing, when neither an edit nor the progress note goes to the
  queue document: the queue document is the advanced one exactly when \<open>git push\<close>
  succeeded and the queue document could be written, and it is untouched otherwise.
\<close>

lemma apply_and_publish_result:
  assumes fr: "\<forall>c\<in>set changes. resolve e (filename c) \<noteq> resolve e (js ''backlog.json'')"
    and nt: "resolve e (note_path e t) \<noteq> resolve e (js ''backlog.json'')"
  shows "(pushed e w (world_of (apply_and_publish e b t rest response changes w)) \<and>
            write_ok e (js ''backlog.json'') \<longrightarrow>
            (\<exists>w'. apply_and_publish e b t rest response changes w = Ok w') \<and>
            files (world_of (apply_and_publish e b t rest response changes w))
              (resolve e (js ''backlog.json'')) = Some (encode e (advance b t rest))) \<and>
         (\<not> (pushed e w (world_of (apply_and_publish e b t rest response changes w)) \<and>
             write_ok e (js ''backlog.json'')) \<longrightarrow>
            files (world_of (apply_and_publish e b t rest response changes w))
              (resolve e (js ''backlog.json'')) = files w (resolve e (js ''backlog.json''))) \<and>
         (pushed e w (world_of (apply_and_publish e b t rest response changes w)) \<longrightarrow>
            changes \<noteq> [] \<and> sh_ok e (commit_command t))"
proof -
  let ?q = "resolve e (js ''backlog.json'')"
  let ?r = "apply_and_publish e b t rest response changes w"
  have quiet: ?thesis if "sh_log (world_of ?r) = sh_log w" "files (world_of ?r) ?q = files w ?q"
    using that not_pushed[of "world_of ?r" w e] by simp
  note a = apply_changes_files[OF fr, of w] apply_changes_sh_log[of e changes w]
  show ?thesis
  proof (cases "apply_changes e changes w")
    case (Thrown w1)
    then have "?r = Thrown w1" by (simp add: apply_and_publish_def and_then_def)
    with a Thrown show ?thesis by (intro quiet) (simp_all add: world_of_def)
  next
    case ok1: (Ok w1)
    with a have w1: "files w1 ?q = files w ?q" "sh_log w1 = sh_log w"
      by (simp_all add: world_of_def)
    show ?thesis
    proof (cases "mkdirSync e (js ''docs/progress'') w1")
      case (Thrown w2)
      then have "w2 = w1" by (simp add: mkdirSync_def split: if_splits)
      moreover from ok1 Thrown have "?r = Thrown w2"
        by (simp add: apply_and_publish_def and_then_def)
      ultimately show ?thesis using w1 by (intro quiet) (simp_all add: world_of_def)
    next
      case ok2: (Ok w2)
      then have w2: "files w2 ?q = files w ?q" "sh_log w2 = sh_log w"
        using w1 by (auto simp: mkdirSync_def split: if_splits)
      show ?thesis
      proof (cases "writeFileSync e (note_path e t) (note_text t response) w2")
        case (Thrown w3)
        then have "w3 = w2" by (rule writeFileSync_Thrown)
        moreover from ok1 ok2 Thrown have "?r = Thrown w3"
          by (simp add: apply_and_publish_def and_then_def)
        ultimately show ?thesis using w2 by (intro quiet) (simp_all add: world_of_def)
      next
        case ok3: (Ok w3)
        with writeFileSync_other[OF nt, of "note_text t response" w2]
          writeFileSync_sh_log[of e "note_path e t" "note_text t response" w2] w2
        have w3: "files w3 ?q = files w ?q" "sh_log w3 = sh_log w"
          by (simp_all add: world_of_def)
        show ?thesis
        proof (cases "changes = []")
          case True
          with ok1 ok2 ok3 have "?r = Ok w3" by (simp add: apply_and_publish_def and_then_def)
          with w3 show ?thesis by (intro quiet) (simp_all add: world_of_def)
        next
          case False
          let ?w4 = "validate e w3"
          from False ok1 ok2 ok3 have r: "?r = publish_and_advance e b t rest ?w4"
            by (simp add: apply_and_publish_def and_then_def)
          have w4: "files ?w4 ?q = files w ?q"
            "sh_log ?w4 = sh_log w @ [js ''python manage.py check || true'',
                                      js ''cd frontend && npm run build || true'']"
            using w3 by (simp_all add: validate_files validate_sh_log)
          from publish_and_advance_result[of e b t rest ?w4] show ?thesis
          proof (elim disjE exE conjE)
            fix w' cmds
            assume "publish_and_advance e b t rest ?w4 = Thrown w'" "files w' = files ?w4"
              "sh_log w' = sh_log ?w4 @ cmds"
              "\<not> (js ''git push'' \<in> set cmds \<and> sh_ok e (js ''git push''))"
            with r w4 commands_not_push(1,2) show ?thesis
              by (auto simp: world_of_def pushed_def)
          next
            fix w' cmds
            assume "publish_and_advance e b t rest ?w4 = Thrown w'" "files w' = files ?w4"
              "sh_log w' = sh_log ?w4 @ cmds"
              "js ''git push'' \<in> set cmds" "sh_ok e (js ''git push'')"
              "sh_ok e (commit_command t)" "\<not> write_ok e (js ''backlog.json'')"
            with r w4 False show ?thesis
              by (auto simp: world_of_def pushed_def)
          next
            fix w' cmds
            assume "publish_and_advance e b t rest ?w4 = Ok w'"
              "files w' = (files ?w4)(?q \<mapsto> encode e (advance b t rest))"
              "sh_log w' = sh_log ?w4 @ cmds"
              "js ''git push'' \<in> set cmds" "sh_ok e (js ''git push'')"
              "sh_ok e (commit_command t)" "write_ok e (js ''backlog.json'')"
            with r w4 False show ?thesis
              by (auto simp: world_of_def pushed_def)
          qed
        qed
      qed
    qed
  qed
qed

lemma finish_world: "fst (finish r) = world_of r"
  by (cases r) (simp_all add: finish_def world_of_def)

lemma finish_status: "snd (finish r) = 0 \<longleftrightarrow> (\<exists>w'. r = Ok w')"
  by (cases r) (simp_all add: finish_def)

lemma main_retry_world: "main_retry e w = Some (w', code) \<Longrightarrow> w' = w"
  by (auto simp: main_retry_def split: option.splits list.splits if_splits completion.splits
      dest: parseAIResponse_Some)


section \<open>Claims about the run\<close>

text \<open>
  C7.  The queue document should be unchanged when publish fails or nothing is applied,
  and should have the first task moved when publish succeeds.  In \<open>build-pipeline.js\<close>
  an edit of the response may name the queue document itself: with the response
  \<open>backlog.json\n{}\<close> and a failing \<open>git push\<close>, the run ends with status 1 and the
  queue document reads \<open>{}\<close>, which is neither the document it started from nor that
  document with the first task moved.  And publish may succeed without the move: with
  the response \<open>a.txt\nhello\<close>, when every command succeeds and the queue document cannot
  be written, the run ends with status 1 after the push and the queue document is as it
  was.
\<close>

theorem queue_document_not_as_claimed:
  "files world0 (js ''backlog.json'') = Some (js ''1 2 | '') \<and>
   decode0 (js ''1 2 | '') = Some backlog0 \<and>
   pending backlog0 = [task1, task2] \<and>
   encode0 (backlog0\<lparr>pending := [task2], completed := completed backlog0 @ [task1]\<rparr>) =
     js ''2 | 1'' \<and>
   parseAIResponse_split (js ''backlog.json\<newline>{}'') =
     [\<lparr>filename = js ''backlog.json'', content = js ''{}''\<rparr>] \<and>
   \<not> pushed (example_env (js ''backlog.json\<newline>{}'') push_fails) world0
       (fst (main_build (example_env (js ''backlog.json\<newline>{}'') push_fails) world0)) \<and>
   files (fst (main_build (example_env (js ''backlog.json\<newline>{}'') push_fails) world0))
     (js ''backlog.json'') = Some (js ''{}'') \<and>
   snd (main_build (example_env (js ''backlog.json\<newline>{}'') push_fails) world0) = 1 \<and>
   decode0 (js ''{}'') = None \<and>
   pushed (read_only_env (js ''a.txt\<newline>hello'')) world0
     (fst (main_build (read_only_env (js ''a.txt\<newline>hello'')) world0)) \<and>
   files (fst (main_build (read_only_env (js ''a.txt\<newline>hello'')) world0))
     (js ''backlog.json'') = Some (js ''1 2 | '') \<and>
   snd (main_build (read_only_env (js ''a.txt\<newline>hello'')) world0) = 1"
  by code_simp

text \<open>
  C7, amended.  Take a run of \<open>build-pipeline.js\<close> that starts from a queue document with
  the pending tasks \<open>t # rest\<close> and in which neither an edit of the response nor the
  progress note goes to the file of the queue document (the commands do not touch that
  file, and a failed write leaves a file as it was).  When publish succeeds (\<open>git push\<close>
  was run and succeeded) and the queue document can be written, the run ends with status 0
  and the queue document is the one it started from with \<open>t\<close> moved from the head of
  \<open>pending\<close> to the end of \<open>completed\<close>.  In every other case the queue document is
  unchanged: when publish fails, when nothing is applied, and when the queue document
  cannot be written.  Publish succeeds only in a run with at least one edit, after the
  commit has succeeded.  A run of \<open>part_000\<close> that ends leaves every file as it was.  The
  move keeps every task once.
\<close>

theorem queue_advances_only_after_publish:
  assumes doc: "files w (resolve e (js ''backlog.json'')) = Some doc"
    and b: "decode e doc = Some b"
    and p: "pending b = t # rest"
    and nt: "resolve e (note_path e t) \<noteq> resolve e (js ''backlog.json'')"
    and edits: "\<forall>response c. generate e 0 = Resolved response \<longrightarrow>
                  c \<in> set (parseAIResponse_split response) \<longrightarrow>
                  resolve e (filename c) \<noteq> resolve e (js ''backlog.json'')"
  shows "(pushed e w (fst (main_build e w)) \<and> write_ok e (js ''backlog.json'') \<longrightarrow>
            files (fst (main_build e w)) (resolve e (js ''backlog.json'')) =
              Some (encode e (b\<lparr>pending := rest, completed := completed b @ [t]\<rparr>)) \<and>
            snd (main_build e w) = 0) \<and>
         (\<not> (pushed e w (fst (main_build e w)) \<and> write_ok e (js ''backlog.json'')) \<longrightarrow>
            files (fst (main_build e w)) (resolve e (js ''backlog.json'')) = Some doc) \<and>
         (pushed e w (fst (main_build e w)) \<longrightarrow>
            sh_ok e (commit_command t) \<and>
            (\<exists>response. generate e 0 = Resolved response \<and>
               parseAIResponse_split response \<noteq> [])) \<and>
         ((\<forall>response. generate e 0 = Resolved response \<longrightarrow>
             parseAIResponse_split response = []) \<longrightarrow>
            files (fst (main_build e w)) (resolve e (js ''backlog.json'')) = Some doc) \<and>
         (\<forall>w' code. main_retry e w = Some (w', code) \<longrightarrow> w' = w) \<and>
         mset rest + mset (completed b @ [t]) = mset (pending b) + mset (completed b) \<and>
         (distinct (pending b @ completed b) \<longrightarrow> distinct (rest @ completed b @ [t]))"
proof -
  let ?q = "resolve e (js ''backlog.json'')"
  let ?w' = "fst (main_build e w)"
  have run: "(pushed e w ?w' \<and> write_ok e (js ''backlog.json'') \<longrightarrow>
            files ?w' ?q = Some (encode e (advance b t rest)) \<and> snd (main_build e w) = 0) \<and>
         (\<not> (pushed e w ?w' \<and> write_ok e (js ''backlog.json'')) \<longrightarrow> files ?w' ?q = Some doc) \<and>
         (pushed e w ?w' \<longrightarrow>
            sh_ok e (commit_command t) \<and>
            (\<exists>response. generate e 0 = Resolved response \<and>
               parseAIResponse_split response \<noteq> []))"
  proof -
    have same: ?thesis if "main_build e w = (w, c)" for c
      using that doc not_pushed[of w w e] by simp
    show ?thesis
    proof (cases "readdir_ok e")
      case False
      with doc b p show ?thesis by (intro same) (simp add: main_build_def)
    next
      case True
      show ?thesis
      proof (cases "generate e 0")
        case (Rejected message)
        with True doc b p show ?thesis by (intro same) (simp add: main_build_def)
      next
        case (Resolved response)
        let ?r = "apply_and_publish e b t rest response (parseAIResponse_split response) w"
        have m: "main_build e w = finish ?r"
          using True Resolved doc b p by (simp add: main_build_def)
        have fr: "\<forall>c\<in>set (parseAIResponse_split response).
                    resolve e (filename c) \<noteq> ?q"
          using edits Resolved by blast
        from apply_and_publish_result[OF fr nt, of w b rest response] doc Resolved
        show ?thesis
          unfolding m finish_world finish_status by auto
      qed
    qed
  qed
  have unapplied: "files ?w' ?q = Some doc"
    if "\<forall>response. generate e 0 = Resolved response \<longrightarrow> parseAIResponse_split response = []"
    using run that by blast
  have tasks: "mset rest + mset (completed b @ [t]) = mset (pending b) + mset (completed b)"
    "distinct (pending b @ completed b) \<longrightarrow> distinct (rest @ completed b @ [t])"
    using p by auto
  from run unapplied tasks main_retry_world[of e w] show ?thesis
    unfolding advance_def by blast
qed

theorem queue_advances_only_after_publish_witness:
  "files world0 (js ''backlog.json'') = Some (js ''1 2 | '') \<and>
   pushed (example_env (js ''a.txt\<newline>hello'') all_succeed) world0
     (fst (main_build (example_env (js ''a.txt\<newline>hello'') all_succeed) world0)) \<and>
   files (fst (main_build (example_env (js ''a.txt\<newline>hello'') all_succeed) world0))
     (js ''backlog.json'') = Some (js ''2 | 1'') \<and>
   snd (main_build (example_env (js ''a.txt\<newline>hello'') all_succeed) world0) = 0"
proof -
  let ?e = "example_env (js ''a.txt\<newline>hello'') all_succeed"
  have r: "resolve ?e = (\<lambda>p. p)" by (simp add: example_env_def)
  have h1: "files world0 (resolve ?e (js ''backlog.json'')) = Some (js ''1 2 | '')"
    by (simp add: r world0_def)
  have h2: "decode ?e (js ''1 2 | '') = Some backlog0"
    by (simp add: example_env_def decode0_def)
  have h3: "pending backlog0 = task1 # [task2]" by (simp add: backlog0_def)
  have h4: "resolve ?e (note_path ?e task1) \<noteq> resolve ?e (js ''backlog.json'')"
    by code_simp
  have g: "generate ?e 0 = Resolved (js ''a.txt\<newline>hello'')" by (simp add: example_env_def)
  have ps: "parseAIResponse_split (js ''a.txt\<newline>hello'') =
              [\<lparr>filename = js ''a.txt'', content = js ''hello''\<rparr>]" by code_simp
  have ne: "js ''a.txt'' \<noteq> js ''backlog.json''" by code_simp
  have h5: "\<forall>response c. generate ?e 0 = Resolved response \<longrightarrow>
              c \<in> set (parseAIResponse_split response) \<longrightarrow>
              resolve ?e (filename c) \<noteq> resolve ?e (js ''backlog.json'')"
    using ps ne by (auto simp: g r)
  have pu: "pushed ?e world0 (fst (main_build ?e world0))" by code_simp
  have wr: "write_ok ?e (js ''backlog.json'')" by (simp add: example_env_def)
  have enc: "encode ?e (backlog0\<lparr>pending := [task2], completed := completed backlog0 @ [task1]\<rparr>) =
               js ''2 | 1''" by code_simp
  note th = queue_advances_only_after_publish[OF h1 h2 h3 h4 h5]
  from th have "pushed ?e world0 (fst (main_build ?e world0)) \<and> write_ok ?e (js ''backlog.json'') \<longrightarrow>
      files (fst (main_build ?e world0)) (resolve ?e (js ''backlog.json'')) =
        Some (encode ?e (backlog0\<lparr>pending := [task2], completed := completed backlog0 @ [task1]\<rparr>)) \<and>
      snd (main_build ?e world0) = 0"
    by (rule conjunct1)
  with pu wr
  have "files (fst (main_build ?e world0)) (resolve ?e (js ''backlog.json'')) =
          Some (encode ?e (backlog0\<lparr>pending := [task2], completed := completed backlog0 @ [task1]\<rparr>))"
    and "snd (main_build ?e world0) = 0"
    by blast+
  with h1 pu show ?thesis by (simp only: r enc)
qed

text \<open>
  C9.  A run whose response has no accepted block should write no file.  In
  \<open>build-pipeline.js\<close> such a run makes no commit, leaves the queue document and ends with
  status 0, but it creates \<open>docs/progress\<close> and writes the progress note there;
  \<open>part_000\<close> returns before that and writes nothing.
\<close>

theorem no_op_run_writes_progress_note:
  "parseAIResponse_split (js ''no delimiters here'') = [] \<and>
   fs_log world0 = [] \<and>
   fs_log (fst (main_build (example_env (js ''no delimiters here'') all_succeed) world0)) =
     [Mkdir (js ''docs/progress''),
      WriteFile (js ''docs/progress/2025-01-01-1.md'')
        (js ''# Task 1\<newline>first\<newline>\<newline>no delimiters here'')] \<and>
   sh_log (fst (main_build (example_env (js ''no delimiters here'') all_succeed) world0)) = [] \<and>
   snd (main_build (example_env (js ''no delimiters here'') all_succeed) world0) = 0 \<and>
   map_option (\<lambda>r. (fs_log (fst r), sh_log (fst r), snd r))
     (main_retry (example_env (js ''no delimiters here'') all_succeed) world0) =
     Some ([], [], 0)"
  by code_simp

end
